theory Spec2Isabelle
  imports Main "HOL-Library.Word"
begin

unbundle bit_operations_syntax

section \<open>Data model\<close>

text \<open>
  \<^verbatim>\<open>type Number uint16\<close>: every cell of memory, every register and every stack entry.
  Go's \<^verbatim>\<open>byte\<close> is an 8-bit word and \<^verbatim>\<open>rune\<close> a 32-bit one.
\<close>

type_synonym Number = "16 word"
type_synonym byte = "8 word"
type_synonym rune = "32 word"

text \<open>\<^verbatim>\<open>const modulo = 32768\<close>, and the length of the array \<^verbatim>\<open>memory [32767]Number\<close>.\<close>

definition modulo :: nat where
  "modulo = 32768"

definition memory_size :: nat where
  "memory_size = 32767"

text \<open>
  Every way the Go process stops: \<^verbatim>\<open>os.Exit(0)\<close>, the three \<^verbatim>\<open>log.Fatalf\<close> calls,
  the explicit \<^verbatim>\<open>panic("Stack underflow")\<close>, and the run-time panics of Go itself
  (index out of range, carrying the index and the length as Go's message does; slice
  bounds out of range; integer divide by zero).
\<close>

datatype stop =
    Exit0
  | FatalInvalidValue Number
  | FatalUnknownOpcode Number
  | FatalReadInput
  | PanicStackUnderflow
  | PanicIndexOutOfRange int nat
  | PanicSliceBounds
  | PanicDivideByZero

text \<open>
  The struct \<^verbatim>\<open>VirtualMachine\<close>. The first five fields are the struct's own. The last
  two are the process's standard streams, which \<^verbatim>\<open>ask\<close> and \<^verbatim>\<open>print\<close> use:
  \<open>stdin\<close> lists the lines that the successive calls of \<^verbatim>\<open>ReadString('\n')\<close> will
  return (already decoded into runes; when it is exhausted the call returns an error),
  and \<open>stdout\<close> collects the runes printed so far.
\<close>

record VirtualMachine =
  memory :: "Number list"
  registers :: "Number list"
  stack :: "Number list"
  memoryIndex :: int
  input :: "rune list"
  stdin :: "rune list list"
  stdout :: "rune list"

text \<open>Sequencing of steps that may stop the process.\<close>

fun andThen :: "stop + 'a \<Rightarrow> ('a \<Rightarrow> stop + 'b) \<Rightarrow> stop + 'b" where
  "andThen (Inl e) f = Inl e"
| "andThen (Inr x) f = f x"

text \<open>Go's indexing \<^verbatim>\<open>xs[i]\<close> and indexed assignment \<^verbatim>\<open>xs[i] = v\<close> with an \<^verbatim>\<open>int\<close> index.\<close>

definition index :: "'a list \<Rightarrow> int \<Rightarrow> stop + 'a" where
  "index xs i =
     (if 0 \<le> i \<and> i < int (length xs) then Inr (xs ! nat i)
      else Inl (PanicIndexOutOfRange i (length xs)))"

definition assign :: "'a list \<Rightarrow> int \<Rightarrow> 'a \<Rightarrow> stop + 'a list" where
  "assign xs i v =
     (if 0 \<le> i \<and> i < int (length xs) then Inr (xs[nat i := v])
      else Inl (PanicIndexOutOfRange i (length xs)))"

section \<open>Program loader\<close>

text \<open>\<^verbatim>\<open>binary.LittleEndian.Uint16\<close> on a two-byte slice.\<close>

definition Uint16 :: "byte \<Rightarrow> byte \<Rightarrow> Number" where
  "Uint16 b0 b1 = ucast b0 OR push_bit 8 (ucast b1)"

text \<open>
  \<^verbatim>\<open>readProgram\<close>. The loop takes \<^verbatim>\<open>b[i:i+2]\<close> for \<open>i = 0, 2, 4, \<dots>\<close> below
  \<^verbatim>\<open>len(b)\<close>. A Go slice expression is checked against the capacity of the slice, not
  its length, so the model takes the elements of \<open>b\<close> and, as \<open>spare\<close>, the content of
  its backing array between \<^verbatim>\<open>len(b)\<close> and \<^verbatim>\<open>cap(b)\<close>. Only a last unpaired byte
  can reach into the spare capacity.
\<close>

fun readProgram :: "byte list \<Rightarrow> byte list \<Rightarrow> stop + Number list" where
  "readProgram [] spare = Inr []"
| "readProgram [b0] [] = Inl PanicSliceBounds"
| "readProgram [b0] (s0 # spare) = Inr [Uint16 b0 s0]"
| "readProgram (b0 # b1 # bs) spare =
     andThen (readProgram bs spare) (\<lambda>result. Inr (Uint16 b0 b1 # result))"

text \<open>
  \<^verbatim>\<open>NewVirtualMachine\<close>: a zero-valued struct, then \<^verbatim>\<open>copy(result.memory[:], program)\<close>,
  which copies as many elements as the shorter of the two has.
\<close>

definition NewVirtualMachine :: "Number list \<Rightarrow> VirtualMachine" where
  "NewVirtualMachine program =
     \<lparr> memory = take memory_size program @ replicate (memory_size - length program) 0,
       registers = replicate 8 0,
       stack = [],
       memoryIndex = 0,
       input = [],
       stdin = [],
       stdout = [] \<rparr>"

text \<open>The loading part of \<^verbatim>\<open>main\<close>: \<^verbatim>\<open>NewVirtualMachine(readProgram(b))\<close>.\<close>

definition load :: "byte list \<Rightarrow> byte list \<Rightarrow> stop + VirtualMachine" where
  "load b spare = andThen (readProgram b spare) (\<lambda>program. Inr (NewVirtualMachine program))"

section \<open>Operand resolution\<close>

definition current :: "VirtualMachine \<Rightarrow> stop + Number" where
  "current vm = index (memory vm) (memoryIndex vm)"

text \<open>\<^verbatim>\<open>next\<close> increments the index, then reads the cell there.\<close>

definition next_vm :: "VirtualMachine \<Rightarrow> stop + Number \<times> VirtualMachine" where
  "next_vm vm =
     andThen (index (memory vm) (memoryIndex vm + 1))
       (\<lambda>n. Inr (n, vm\<lparr>memoryIndex := memoryIndex vm + 1\<rparr>))"

definition toRegisterIndex :: "Number \<Rightarrow> int" where
  "toRegisterIndex n = int (unat n) - int modulo"

definition toValue :: "VirtualMachine \<Rightarrow> Number \<Rightarrow> stop + Number" where
  "toValue vm n =
     (if n \<ge> 32776 then Inl (FatalInvalidValue n)
      else if n \<ge> word_of_nat modulo then index (registers vm) (toRegisterIndex n)
      else Inr n)"

text \<open>
  The statement \<^verbatim>\<open>vm.registers[registerIndex] = v\<close>, which every instruction with a
  destination ends with. Go evaluates the right-hand side first and checks the index
  when it assigns, so the callers below compute \<open>v\<close> before they come here.
\<close>

definition setRegister :: "VirtualMachine \<Rightarrow> int \<Rightarrow> Number \<Rightarrow> stop + VirtualMachine" where
  "setRegister vm registerIndex v =
     andThen (assign (registers vm) registerIndex v) (\<lambda>rs. Inr (vm\<lparr>registers := rs\<rparr>))"

section \<open>Instructions\<close>

definition and_vm :: "VirtualMachine \<Rightarrow> stop + VirtualMachine" where
  "and_vm vm =
     andThen (next_vm vm) (\<lambda>(d, vm1).
     andThen (next_vm vm1) (\<lambda>(w1, vm2). andThen (toValue vm2 w1) (\<lambda>value1.
     andThen (next_vm vm2) (\<lambda>(w2, vm3). andThen (toValue vm3 w2) (\<lambda>value2.
     setRegister vm3 (toRegisterIndex d) ((value1 AND value2) mod word_of_nat modulo))))))"

definition or_vm :: "VirtualMachine \<Rightarrow> stop + VirtualMachine" where
  "or_vm vm =
     andThen (next_vm vm) (\<lambda>(d, vm1).
     andThen (next_vm vm1) (\<lambda>(w1, vm2). andThen (toValue vm2 w1) (\<lambda>value1.
     andThen (next_vm vm2) (\<lambda>(w2, vm3). andThen (toValue vm3 w2) (\<lambda>value2.
     setRegister vm3 (toRegisterIndex d) ((value1 OR value2) mod word_of_nat modulo))))))"

definition not_vm :: "VirtualMachine \<Rightarrow> stop + VirtualMachine" where
  "not_vm vm =
     andThen (next_vm vm) (\<lambda>(d, vm1).
     andThen (next_vm vm1) (\<lambda>(w, vm2). andThen (toValue vm2 w) (\<lambda>v.
     setRegister vm2 (toRegisterIndex d) ((NOT v) mod word_of_nat modulo))))"

definition add :: "VirtualMachine \<Rightarrow> stop + VirtualMachine" where
  "add vm =
     andThen (next_vm vm) (\<lambda>(d, vm1).
     andThen (next_vm vm1) (\<lambda>(w1, vm2). andThen (toValue vm2 w1) (\<lambda>value1.
     andThen (next_vm vm2) (\<lambda>(w2, vm3). andThen (toValue vm3 w2) (\<lambda>value2.
     setRegister vm3 (toRegisterIndex d) ((value1 + value2) mod word_of_nat modulo))))))"

definition mul :: "VirtualMachine \<Rightarrow> stop + VirtualMachine" where
  "mul vm =
     andThen (next_vm vm) (\<lambda>(d, vm1).
     andThen (next_vm vm1) (\<lambda>(w1, vm2). andThen (toValue vm2 w1) (\<lambda>value1.
     andThen (next_vm vm2) (\<lambda>(w2, vm3). andThen (toValue vm3 w2) (\<lambda>value2.
     setRegister vm3 (toRegisterIndex d) ((value1 * value2) mod word_of_nat modulo))))))"

text \<open>Go's \<^verbatim>\<open>%\<close> panics on a zero divisor.\<close>

definition mod_vm :: "VirtualMachine \<Rightarrow> stop + VirtualMachine" where
  "mod_vm vm =
     andThen (next_vm vm) (\<lambda>(d, vm1).
     andThen (next_vm vm1) (\<lambda>(w1, vm2). andThen (toValue vm2 w1) (\<lambda>value1.
     andThen (next_vm vm2) (\<lambda>(w2, vm3). andThen (toValue vm3 w2) (\<lambda>value2.
     if value2 = 0 then Inl PanicDivideByZero
     else setRegister vm3 (toRegisterIndex d) ((value1 mod value2) mod word_of_nat modulo))))))"

definition gt :: "VirtualMachine \<Rightarrow> stop + VirtualMachine" where
  "gt vm =
     andThen (next_vm vm) (\<lambda>(d, vm1).
     andThen (next_vm vm1) (\<lambda>(w1, vm2). andThen (toValue vm2 w1) (\<lambda>value1.
     andThen (next_vm vm2) (\<lambda>(w2, vm3). andThen (toValue vm3 w2) (\<lambda>value2.
     if value1 > value2 then setRegister vm3 (toRegisterIndex d) 1
     else setRegister vm3 (toRegisterIndex d) 0)))))"

definition eq_vm :: "VirtualMachine \<Rightarrow> stop + VirtualMachine" where
  "eq_vm vm =
     andThen (next_vm vm) (\<lambda>(d, vm1).
     andThen (next_vm vm1) (\<lambda>(w1, vm2). andThen (toValue vm2 w1) (\<lambda>value1.
     andThen (next_vm vm2) (\<lambda>(w2, vm3). andThen (toValue vm3 w2) (\<lambda>value2.
     if value1 = value2 then setRegister vm3 (toRegisterIndex d) 1
     else setRegister vm3 (toRegisterIndex d) 0)))))"

definition halt :: "VirtualMachine \<Rightarrow> stop + VirtualMachine" where
  "halt vm = Inl Exit0"

definition jump :: "VirtualMachine \<Rightarrow> stop + VirtualMachine" where
  "jump vm =
     andThen (next_vm vm) (\<lambda>(w, vm1). andThen (toValue vm1 w) (\<lambda>v.
     Inr (vm1\<lparr>memoryIndex := int (unat v) - 1\<rparr>)))"

definition jf :: "VirtualMachine \<Rightarrow> stop + VirtualMachine" where
  "jf vm =
     andThen (next_vm vm) (\<lambda>(w, vm1). andThen (toValue vm1 w) (\<lambda>v.
     if v = 0 then jump vm1
     else andThen (next_vm vm1) (\<lambda>(_, vm2). Inr vm2)))"

definition jt :: "VirtualMachine \<Rightarrow> stop + VirtualMachine" where
  "jt vm =
     andThen (next_vm vm) (\<lambda>(w, vm1). andThen (toValue vm1 w) (\<lambda>v.
     if v \<noteq> 0 then jump vm1
     else andThen (next_vm vm1) (\<lambda>(_, vm2). Inr vm2)))"

definition noop :: "VirtualMachine \<Rightarrow> stop + VirtualMachine" where
  "noop vm = Inr vm"

text \<open>
  Go's conversion \<^verbatim>\<open>string(r)\<close> of a rune is the UTF-8 encoding of \<open>r\<close>, and that of
  U+FFFD when \<open>r\<close> is not a valid code point: a surrogate half, or a value beyond
  U+10FFFF (a negative rune is one, read unsigned). \<open>string_rune r\<close> is the code point
  that is written.
\<close>

definition string_rune :: "rune \<Rightarrow> rune" where
  "string_rune r = (if (55296 \<le> r \<and> r \<le> 57343) \<or> 1114111 < r then 65533 else r)"

text \<open>\<^verbatim>\<open>rune(n)\<close> widens the 16-bit value; the rune goes to standard output.\<close>

definition print :: "VirtualMachine \<Rightarrow> stop + VirtualMachine" where
  "print vm =
     andThen (next_vm vm) (\<lambda>(w, vm1). andThen (toValue vm1 w) (\<lambda>v.
     Inr (vm1\<lparr>stdout := stdout vm1 @ [string_rune (ucast v)]\<rparr>)))"

text \<open>
  \<^verbatim>\<open>ask\<close>: with an empty buffer, one line is read first, and a read error is fatal.
  \<^verbatim>\<open>Number(vm.input[0])\<close> keeps the low 16 bits of the rune.
\<close>

definition refill :: "VirtualMachine \<Rightarrow> stop + VirtualMachine" where
  "refill vm =
     (if length (input vm) = 0 then
        (case stdin vm of
           [] \<Rightarrow> Inl FatalReadInput
         | line # rest \<Rightarrow> Inr (vm\<lparr>input := line, stdin := rest\<rparr>))
      else Inr vm)"

definition ask :: "VirtualMachine \<Rightarrow> stop + VirtualMachine" where
  "ask vm =
     andThen (refill vm) (\<lambda>vm0.
     andThen (next_vm vm0) (\<lambda>(d, vm1).
     andThen (index (input vm1) 0) (\<lambda>c.
     andThen (setRegister vm1 (toRegisterIndex d) (ucast c)) (\<lambda>vm2.
     Inr (vm2\<lparr>input := drop 1 (input vm2)\<rparr>)))))"

definition pop :: "VirtualMachine \<Rightarrow> stop + VirtualMachine" where
  "pop vm =
     (let l = length (stack vm) in
      if l = 0 then Inl PanicStackUnderflow
      else
        (let v = stack vm ! (l - 1); vm0 = vm\<lparr>stack := take (l - 1) (stack vm)\<rparr> in
         andThen (next_vm vm0) (\<lambda>(d, vm1). setRegister vm1 (toRegisterIndex d) v)))"

definition push :: "VirtualMachine \<Rightarrow> stop + VirtualMachine" where
  "push vm =
     andThen (next_vm vm) (\<lambda>(w, vm1). andThen (toValue vm1 w) (\<lambda>v.
     Inr (vm1\<lparr>stack := stack vm1 @ [v]\<rparr>)))"

text \<open>\<^verbatim>\<open>read\<close> (opcode 15) indexes the memory with a \<^verbatim>\<open>Number\<close>.\<close>

definition read :: "VirtualMachine \<Rightarrow> stop + VirtualMachine" where
  "read vm =
     andThen (next_vm vm) (\<lambda>(d, vm1).
     andThen (next_vm vm1) (\<lambda>(w, vm2). andThen (toValue vm2 w) (\<lambda>a.
     andThen (index (memory vm2) (int (unat a))) (\<lambda>v.
     setRegister vm2 (toRegisterIndex d) v))))"

definition write_vm :: "VirtualMachine \<Rightarrow> stop + VirtualMachine" where
  "write_vm vm =
     andThen (next_vm vm) (\<lambda>(w1, vm1). andThen (toValue vm1 w1) (\<lambda>a.
     andThen (next_vm vm1) (\<lambda>(w2, vm2). andThen (toValue vm2 w2) (\<lambda>v.
     andThen (assign (memory vm2) (int (unat a)) v) (\<lambda>m.
     Inr (vm2\<lparr>memory := m\<rparr>))))))"

text \<open>\<^verbatim>\<open>Number(vm.memoryIndex+2)\<close> keeps the low 16 bits of the \<^verbatim>\<open>int\<close>.\<close>

definition call :: "VirtualMachine \<Rightarrow> stop + VirtualMachine" where
  "call vm = jump (vm\<lparr>stack := stack vm @ [word_of_int (memoryIndex vm + 2)]\<rparr>)"

definition ret :: "VirtualMachine \<Rightarrow> stop + VirtualMachine" where
  "ret vm =
     (let l = length (stack vm) in
      if l = 0 then halt vm
      else Inr (vm\<lparr>memoryIndex := int (unat (stack vm ! (l - 1))) - 1,
                   stack := take (l - 1) (stack vm)\<rparr>))"

definition set_vm :: "VirtualMachine \<Rightarrow> stop + VirtualMachine" where
  "set_vm vm =
     andThen (next_vm vm) (\<lambda>(d, vm1).
     andThen (next_vm vm1) (\<lambda>(w, vm2). andThen (toValue vm2 w) (\<lambda>v.
     setRegister vm2 (toRegisterIndex d) v)))"

section \<open>The fetch-execute loop\<close>

text \<open>The \<^verbatim>\<open>switch\<close> of \<^verbatim>\<open>Run\<close>.\<close>

definition dispatch :: "Number \<Rightarrow> VirtualMachine \<Rightarrow> stop + VirtualMachine" where
  "dispatch opcode vm =
     (if opcode = 0 then halt vm
      else if opcode = 1 then set_vm vm
      else if opcode = 2 then push vm
      else if opcode = 3 then pop vm
      else if opcode = 4 then eq_vm vm
      else if opcode = 5 then gt vm
      else if opcode = 6 then jump vm
      else if opcode = 7 then jt vm
      else if opcode = 8 then jf vm
      else if opcode = 9 then add vm
      else if opcode = 10 then mul vm
      else if opcode = 11 then mod_vm vm
      else if opcode = 12 then and_vm vm
      else if opcode = 13 then or_vm vm
      else if opcode = 14 then not_vm vm
      else if opcode = 15 then read vm
      else if opcode = 16 then write_vm vm
      else if opcode = 17 then call vm
      else if opcode = 18 then ret vm
      else if opcode = 19 then print vm
      else if opcode = 20 then ask vm
      else if opcode = 21 then noop vm
      else Inl (FatalUnknownOpcode opcode))"

text \<open>One turn of the loop of \<^verbatim>\<open>Run\<close>: fetch, resolve, dispatch, then \<^verbatim>\<open>vm.next()\<close>.\<close>

definition step :: "VirtualMachine \<Rightarrow> stop + VirtualMachine" where
  "step vm =
     andThen (current vm) (\<lambda>w. andThen (toValue vm w) (\<lambda>opcode.
     andThen (dispatch opcode vm) (\<lambda>vm1.
     andThen (next_vm vm1) (\<lambda>(_, vm2). Inr vm2))))"

text \<open>
  \<^verbatim>\<open>Run\<close> loops until the process stops; it has no other way out. \<open>None\<close> is a run
  that goes on for ever.
\<close>

partial_function (option) Run :: "VirtualMachine \<Rightarrow> stop option" where
  "Run vm = (case step vm of Inl e \<Rightarrow> Some e | Inr vm' \<Rightarrow> Run vm')"

section \<open>Vocabulary of the properties\<close>

text \<open>
  The raw word \<open>k\<close> cells after the current instruction word, read with Go's bounds
  check, and the same word resolved with \<^verbatim>\<open>toValue\<close>. \<open>operand vm 0\<close> is the
  instruction word itself.
\<close>

definition operand :: "VirtualMachine \<Rightarrow> int \<Rightarrow> stop + Number" where
  "operand vm k = index (memory vm) (memoryIndex vm + k)"

definition resolved :: "VirtualMachine \<Rightarrow> int \<Rightarrow> stop + Number" where
  "resolved vm k = andThen (operand vm k) (toValue vm)"

text \<open>A register reference is a word from 32768 to 32775.\<close>

definition is_register_reference :: "Number \<Rightarrow> bool" where
  "is_register_reference w = (32768 \<le> unat w \<and> unat w \<le> 32775)"

text \<open>
  The two arrays of the struct have their declared lengths, \<^verbatim>\<open>[32767]Number\<close> and
  \<^verbatim>\<open>[8]Number\<close>. This holds of every machine that \<^verbatim>\<open>NewVirtualMachine\<close> builds
  and is kept by every instruction.
\<close>

definition well_formed :: "VirtualMachine \<Rightarrow> bool" where
  "well_formed vm = (length (memory vm) = memory_size \<and> length (registers vm) = 8)"

text \<open>
  The number of operand words of each instruction as the specification tabulates it
  (opcodes 0 to 21).
\<close>

definition spec_operand_count :: "Number \<Rightarrow> nat" where
  "spec_operand_count opcode =
     (if unat opcode < 22
      then [0, 2, 1, 1, 3, 3, 1, 2, 2, 3, 3, 3, 3, 3, 2, 2, 2, 1, 0, 1, 1, 0] ! unat opcode
      else 0)"

text \<open>
  The loader as the specification words it: each consecutive pair of bytes read as an
  unsigned 16-bit little-endian integer, in order.
\<close>

fun spec_words :: "byte list \<Rightarrow> nat list" where
  "spec_words (b0 # b1 # bs) = (unat b0 + 256 * unat b1) # spec_words bs"
| "spec_words bs = []"



section \<open>Example machines\<close>

text \<open>A machine whose registers hold 10, 11, \<dots>, 17.\<close>

definition vm_registers :: VirtualMachine where
  "vm_registers = (NewVirtualMachine [])\<lparr>registers := [10, 11, 12, 13, 14, 15, 16, 17]\<rparr>"

text \<open>\<^verbatim>\<open>jt 0 100\<close>, \<^verbatim>\<open>jf 1 100\<close> and \<^verbatim>\<open>add r0 32767 5\<close> at address 0.\<close>

definition vm_jt_zero :: VirtualMachine where
  "vm_jt_zero = NewVirtualMachine [7, 0, 100]"

definition vm_jf_nonzero :: VirtualMachine where
  "vm_jf_nonzero = NewVirtualMachine [8, 1, 100]"

definition vm_add :: VirtualMachine where
  "vm_add = NewVirtualMachine [9, 32768, 32767, 5]"

text \<open>\<^verbatim>\<open>not r1 5\<close> at address 0.\<close>

definition vm_not :: VirtualMachine where
  "vm_not = NewVirtualMachine [14, 32769, 5]"

text \<open>
  \<^verbatim>\<open>call 4\<close> at address 0 with a \<^verbatim>\<open>ret\<close> at address 4; a lone \<^verbatim>\<open>ret\<close> on an empty
  stack; and a \<^verbatim>\<open>ret\<close> with 7 and 3 on the stack.
\<close>

definition vm_call :: VirtualMachine where
  "vm_call = NewVirtualMachine [17, 4, 21, 21, 18]"

definition vm_ret_empty :: VirtualMachine where
  "vm_ret_empty = NewVirtualMachine [18]"

definition vm_ret :: VirtualMachine where
  "vm_ret = (NewVirtualMachine [18, 0, 0, 21])\<lparr>stack := [7, 3]\<rparr>"

text \<open>\<^verbatim>\<open>set\<close> whose destination word is the literal 5, at address 0.\<close>

definition vm_set_literal :: VirtualMachine where
  "vm_set_literal = NewVirtualMachine [1, 5, 7]"

section \<open>Auxiliary facts\<close>

lemma andThen_assoc: "andThen (andThen m f) g = andThen m (\<lambda>x. andThen (f x) g)"
  by (cases m) simp_all

lemma andThen_Inr_iff: "andThen m f = Inr y \<longleftrightarrow> (\<exists>x. m = Inr x \<and> f x = Inr y)"
  by (cases m) auto


lemma if_andThen:
  "(if c then andThen m f else andThen m g) = andThen m (\<lambda>x. if c then f x else g x)"
  by simp

lemma toValue_update:
  "toValue (vm\<lparr>memoryIndex := i\<rparr>) n = toValue vm n"
  "toValue (vm\<lparr>stack := s\<rparr>) n = toValue vm n"
  "toValue (vm\<lparr>input := inp\<rparr>) n = toValue vm n"
  "toValue (vm\<lparr>memory := m\<rparr>) n = toValue vm n"
  by (simp_all add: toValue_def)

lemmas nf = next_vm_def andThen_assoc operand_def resolved_def toValue_update if_andThen ac_simps

lemma set_vm_normal:
  "set_vm vm =
     andThen (operand vm 1) (\<lambda>d. andThen (resolved vm 2) (\<lambda>v.
       setRegister (vm\<lparr>memoryIndex := memoryIndex vm + 2\<rparr>) (toRegisterIndex d) v))"
  by (simp add: set_vm_def nf)

lemma push_normal:
  "push vm =
     andThen (resolved vm 1) (\<lambda>v.
       Inr (vm\<lparr>memoryIndex := memoryIndex vm + 1, stack := stack vm @ [v]\<rparr>))"
  by (simp add: push_def nf)

lemma pop_normal:
  "pop vm =
     (if stack vm = [] then Inl PanicStackUnderflow
      else andThen (operand vm 1) (\<lambda>d.
        setRegister (vm\<lparr>stack := butlast (stack vm), memoryIndex := memoryIndex vm + 1\<rparr>)
          (toRegisterIndex d) (last (stack vm))))"
  by (simp add: pop_def nf Let_def butlast_conv_take last_conv_nth)

lemma eq_vm_normal:
  "eq_vm vm =
     andThen (operand vm 1) (\<lambda>d. andThen (resolved vm 2) (\<lambda>a. andThen (resolved vm 3) (\<lambda>b.
       setRegister (vm\<lparr>memoryIndex := memoryIndex vm + 3\<rparr>) (toRegisterIndex d)
         (if a = b then 1 else 0))))"
  by (simp add: eq_vm_def nf if_distrib [of "setRegister _ _"] cong: if_cong)

lemma gt_normal:
  "gt vm =
     andThen (operand vm 1) (\<lambda>d. andThen (resolved vm 2) (\<lambda>a. andThen (resolved vm 3) (\<lambda>b.
       setRegister (vm\<lparr>memoryIndex := memoryIndex vm + 3\<rparr>) (toRegisterIndex d)
         (if a > b then 1 else 0))))"
  by (simp add: gt_def nf if_distrib [of "setRegister _ _"] cong: if_cong)

lemma jump_normal:
  "jump vm = andThen (resolved vm 1) (\<lambda>v. Inr (vm\<lparr>memoryIndex := int (unat v) - 1\<rparr>))"
  by (simp add: jump_def nf)

lemma jt_normal:
  "jt vm =
     andThen (resolved vm 1) (\<lambda>c. andThen (operand vm 2) (\<lambda>w.
       if c \<noteq> 0 then andThen (toValue vm w) (\<lambda>v. Inr (vm\<lparr>memoryIndex := int (unat v) - 1\<rparr>))
       else Inr (vm\<lparr>memoryIndex := memoryIndex vm + 2\<rparr>)))"
  by (simp add: jt_def jump_def nf cong: if_cong)

lemma jf_normal:
  "jf vm =
     andThen (resolved vm 1) (\<lambda>c. andThen (operand vm 2) (\<lambda>w.
       if c = 0 then andThen (toValue vm w) (\<lambda>v. Inr (vm\<lparr>memoryIndex := int (unat v) - 1\<rparr>))
       else Inr (vm\<lparr>memoryIndex := memoryIndex vm + 2\<rparr>)))"
  by (simp add: jf_def jump_def nf cong: if_cong)

lemma add_normal:
  "add vm =
     andThen (operand vm 1) (\<lambda>d. andThen (resolved vm 2) (\<lambda>a. andThen (resolved vm 3) (\<lambda>b.
       setRegister (vm\<lparr>memoryIndex := memoryIndex vm + 3\<rparr>) (toRegisterIndex d)
         ((a + b) mod word_of_nat modulo))))"
  by (simp add: add_def nf)

lemma mul_normal:
  "mul vm =
     andThen (operand vm 1) (\<lambda>d. andThen (resolved vm 2) (\<lambda>a. andThen (resolved vm 3) (\<lambda>b.
       setRegister (vm\<lparr>memoryIndex := memoryIndex vm + 3\<rparr>) (toRegisterIndex d)
         ((a * b) mod word_of_nat modulo))))"
  by (simp add: mul_def nf)

lemma mod_vm_normal:
  "mod_vm vm =
     andThen (operand vm 1) (\<lambda>d. andThen (resolved vm 2) (\<lambda>a. andThen (resolved vm 3) (\<lambda>b.
       if b = 0 then Inl PanicDivideByZero
       else setRegister (vm\<lparr>memoryIndex := memoryIndex vm + 3\<rparr>) (toRegisterIndex d)
         ((a mod b) mod word_of_nat modulo))))"
  by (simp add: mod_vm_def nf cong: if_cong)

lemma and_vm_normal:
  "and_vm vm =
     andThen (operand vm 1) (\<lambda>d. andThen (resolved vm 2) (\<lambda>a. andThen (resolved vm 3) (\<lambda>b.
       setRegister (vm\<lparr>memoryIndex := memoryIndex vm + 3\<rparr>) (toRegisterIndex d)
         ((a AND b) mod word_of_nat modulo))))"
  by (simp add: and_vm_def nf)

lemma or_vm_normal:
  "or_vm vm =
     andThen (operand vm 1) (\<lambda>d. andThen (resolved vm 2) (\<lambda>a. andThen (resolved vm 3) (\<lambda>b.
       setRegister (vm\<lparr>memoryIndex := memoryIndex vm + 3\<rparr>) (toRegisterIndex d)
         ((a OR b) mod word_of_nat modulo))))"
  by (simp add: or_vm_def nf)

lemma not_vm_normal:
  "not_vm vm =
     andThen (operand vm 1) (\<lambda>d. andThen (resolved vm 2) (\<lambda>a.
       setRegister (vm\<lparr>memoryIndex := memoryIndex vm + 2\<rparr>) (toRegisterIndex d)
         ((NOT a) mod word_of_nat modulo)))"
  by (simp add: not_vm_def nf)

lemma read_normal:
  "read vm =
     andThen (operand vm 1) (\<lambda>d. andThen (resolved vm 2) (\<lambda>a.
     andThen (index (memory vm) (int (unat a))) (\<lambda>v.
       setRegister (vm\<lparr>memoryIndex := memoryIndex vm + 2\<rparr>) (toRegisterIndex d) v)))"
  by (simp add: read_def nf)

lemma write_vm_normal:
  "write_vm vm =
     andThen (resolved vm 1) (\<lambda>a. andThen (resolved vm 2) (\<lambda>v.
     andThen (assign (memory vm) (int (unat a)) v) (\<lambda>m.
       Inr (vm\<lparr>memoryIndex := memoryIndex vm + 2, memory := m\<rparr>))))"
  by (simp add: write_vm_def nf)

lemma call_normal:
  "call vm =
     andThen (resolved vm 1) (\<lambda>v.
       Inr (vm\<lparr>stack := stack vm @ [word_of_int (memoryIndex vm + 2)],
               memoryIndex := int (unat v) - 1\<rparr>))"
  by (simp add: call_def jump_def nf)

lemma ret_normal:
  "ret vm =
     (if stack vm = [] then Inl Exit0
      else Inr (vm\<lparr>stack := butlast (stack vm), memoryIndex := int (unat (last (stack vm))) - 1\<rparr>))"
  by (simp add: ret_def halt_def Let_def butlast_conv_take last_conv_nth)

lemma print_normal:
  "print vm =
     andThen (resolved vm 1) (\<lambda>v.
       Inr (vm\<lparr>memoryIndex := memoryIndex vm + 1,
               stdout := stdout vm @ [string_rune (ucast v)]\<rparr>))"
  by (simp add: print_def nf)

lemma step_normal:
  "step vm =
     andThen (resolved vm 0) (\<lambda>opcode. andThen (dispatch opcode vm) (\<lambda>vm1.
     andThen (operand vm1 1) (\<lambda>_. Inr (vm1\<lparr>memoryIndex := memoryIndex vm1 + 1\<rparr>))))"
  by (simp add: step_def current_def nf)


lemma index_Inr_iff: "index xs i = Inr x \<longleftrightarrow> 0 \<le> i \<and> i < int (length xs) \<and> x = xs ! nat i"
  by (auto simp: index_def)

lemma assign_Inr_iff:
  "assign xs i v = Inr ys \<longleftrightarrow> 0 \<le> i \<and> i < int (length xs) \<and> ys = xs[nat i := v]"
  by (auto simp: assign_def)

lemma setRegister_Inr_iff:
  "setRegister vm i v = Inr vm' \<longleftrightarrow>
     0 \<le> i \<and> i < int (length (registers vm)) \<and> vm' = vm\<lparr>registers := (registers vm)[nat i := v]\<rparr>"
  by (auto simp: setRegister_def andThen_Inr_iff assign_Inr_iff)

lemma spec_operand_count_simps:
  "spec_operand_count 0 = 0" "spec_operand_count 1 = 2" "spec_operand_count 2 = 1" "spec_operand_count 3 = 1"
  "spec_operand_count 4 = 3" "spec_operand_count 5 = 3" "spec_operand_count 6 = 1" "spec_operand_count 7 = 2"
  "spec_operand_count 8 = 2" "spec_operand_count 9 = 3" "spec_operand_count 10 = 3" "spec_operand_count 11 = 3"
  "spec_operand_count 12 = 3" "spec_operand_count 13 = 3" "spec_operand_count 14 = 2" "spec_operand_count 15 = 2"
  "spec_operand_count 16 = 2" "spec_operand_count 17 = 1" "spec_operand_count 18 = 0" "spec_operand_count 19 = 1"
  "spec_operand_count 20 = 1" "spec_operand_count 21 = 0"
  by (simp_all add: spec_operand_count_def)

lemma refill_Inr:
  "refill vm = Inr vm0 \<Longrightarrow>
     memory vm0 = memory vm \<and> registers vm0 = registers vm \<and> stack vm0 = stack vm \<and>
     memoryIndex vm0 = memoryIndex vm \<and> stdout vm0 = stdout vm"
  by (auto simp: refill_def split: if_splits list.splits)

lemma ask_normal:
  "ask vm =
     andThen (refill vm) (\<lambda>vm0. andThen (operand vm0 1) (\<lambda>d.
     andThen (index (input vm0) 0) (\<lambda>c.
     andThen (setRegister (vm0\<lparr>memoryIndex := memoryIndex vm0 + 1\<rparr>) (toRegisterIndex d) (ucast c))
       (\<lambda>vm2. Inr (vm2\<lparr>input := drop 1 (input vm2)\<rparr>)))))"
  by (simp add: ask_def nf)

lemmas normal_forms =
  set_vm_normal push_normal pop_normal eq_vm_normal gt_normal jump_normal jt_normal jf_normal
  add_normal mul_normal mod_vm_normal and_vm_normal or_vm_normal not_vm_normal read_normal
  write_vm_normal call_normal ret_normal print_normal ask_normal

lemmas inversions = andThen_Inr_iff setRegister_Inr_iff assign_Inr_iff

lemma dispatch_fallthrough:
  assumes "dispatch opcode vm = Inr vm1"
    and "opcode \<noteq> 6" "opcode \<noteq> 17" "opcode \<noteq> 18"
    and "opcode = 7 \<Longrightarrow> resolved vm 1 = Inr 0"
    and "opcode = 8 \<Longrightarrow> \<exists>c. resolved vm 1 = Inr c \<and> c \<noteq> 0"
  shows "memoryIndex vm1 = memoryIndex vm + int (spec_operand_count opcode)"
  using assms unfolding dispatch_def
  by (auto split: if_splits dest!: refill_Inr
      simp: normal_forms inversions spec_operand_count_simps halt_def noop_def operand_def)

lemma dispatch_simps:
  "dispatch 0 vm = halt vm" "dispatch 1 vm = set_vm vm" "dispatch 2 vm = push vm"
  "dispatch 3 vm = pop vm" "dispatch 4 vm = eq_vm vm" "dispatch 5 vm = gt vm"
  "dispatch 6 vm = jump vm" "dispatch 7 vm = jt vm" "dispatch 8 vm = jf vm"
  "dispatch 9 vm = add vm" "dispatch 10 vm = mul vm" "dispatch 11 vm = mod_vm vm"
  "dispatch 12 vm = and_vm vm" "dispatch 13 vm = or_vm vm" "dispatch 14 vm = not_vm vm"
  "dispatch 15 vm = read vm" "dispatch 16 vm = write_vm vm" "dispatch 17 vm = call vm"
  "dispatch 18 vm = ret vm" "dispatch 19 vm = print vm" "dispatch 20 vm = ask vm"
  "dispatch 21 vm = noop vm"
  by (simp_all add: dispatch_def)

lemma New_fields:
  "memoryIndex (NewVirtualMachine p) = 0"
  "registers (NewVirtualMachine p) = replicate 8 0"
  "stack (NewVirtualMachine p) = []"
  "input (NewVirtualMachine p) = []"
  "stdin (NewVirtualMachine p) = []"
  "stdout (NewVirtualMachine p) = []"
  "length (memory (NewVirtualMachine p)) = memory_size"
  by (simp_all add: NewVirtualMachine_def)

lemma index_memory_New:
  "0 \<le> i \<Longrightarrow> nat i < length p \<Longrightarrow> length p \<le> memory_size \<Longrightarrow>
     index (memory (NewVirtualMachine p)) i = Inr (p ! nat i)"
  by (simp add: index_def NewVirtualMachine_def nth_append)

lemma index_memory_New_zero:
  "length p \<le> nat i \<Longrightarrow> 0 \<le> i \<Longrightarrow> i < int memory_size \<Longrightarrow>
     index (memory (NewVirtualMachine p)) i = Inr 0"
  by (simp add: index_def NewVirtualMachine_def nth_append)

lemma toValue_literal: "unat w < 32768 \<Longrightarrow> toValue vm w = Inr w"
  by (simp add: toValue_def modulo_def word_le_nat_alt)

lemmas eval_New =
  operand_def resolved_def index_memory_New index_memory_New_zero toValue_literal memory_size_def
  New_fields

lemma unat_add_modulo: "unat ((a + b) mod word_of_nat modulo :: Number) = (unat a + unat b) mod 32768"
proof -
  have "unat ((a + b) mod 32768 :: Number) = ((unat a + unat b) mod 65536) mod 32768"
    by (simp add: unat_mod unat_word_ariths)
  also have "\<dots> = (unat a + unat b) mod 32768"
    by (rule mod_mod_cancel) simp
  finally show ?thesis by (simp add: modulo_def)
qed

lemma unat_mult_modulo: "unat ((a * b) mod word_of_nat modulo :: Number) = (unat a * unat b) mod 32768"
proof -
  have "unat ((a * b) mod 32768 :: Number) = ((unat a * unat b) mod 65536) mod 32768"
    by (simp add: unat_mod unat_word_ariths)
  also have "\<dots> = (unat a * unat b) mod 32768"
    by (rule mod_mod_cancel) simp
  finally show ?thesis by (simp add: modulo_def)
qed

lemma unat_NOT: "unat (NOT a :: Number) = 65535 - unat a"
proof -
  have m: "unat (- 1 :: Number) = 65535"
    by (simp add: unsigned_minus_1_eq_mask mask_eq_exp_minus_1)
  have "NOT a = - 1 - a" by (simp add: not_eq_complement)
  moreover have "unat (- 1 - a) = unat (- 1 :: Number) - unat a"
    by (rule unat_sub) simp
  ultimately show ?thesis by (simp only: m)
qed

lemma complement_mod: "(n :: nat) \<le> 32767 \<Longrightarrow> (65535 - n) mod 32768 = 32767 - n"
proof -
  assume n: "n \<le> 32767"
  have "(32768 + (32767 - n)) mod 32768 = (32767 - n) mod 32768"
    by (rule mod_add_self1)
  moreover have "(32767 - n) mod 32768 = 32767 - n"
    by (rule mod_less) arith
  moreover have "65535 - n = 32768 + (32767 - n)"
    using n by arith
  ultimately show ?thesis by (simp only:)
qed

lemma unat_not_modulo:
  assumes "unat a \<le> 32767"
  shows "unat ((NOT a) mod word_of_nat modulo :: Number) = 32767 - unat a"
proof -
  have "unat ((NOT a) mod 32768 :: Number) = unat (NOT a) mod 32768"
    by (simp add: unat_mod)
  also have "\<dots> = (65535 - unat a) mod 32768"
    by (simp only: unat_NOT)
  also have "\<dots> = 32767 - unat a"
    using assms by (rule complement_mod)
  finally show ?thesis by (simp add: modulo_def)
qed

lemma setRegister_reference:
  assumes "well_formed vm" and "is_register_reference d" and "registers vm' = registers vm"
  shows "setRegister vm' (toRegisterIndex d) v =
           Inr (vm'\<lparr>registers := (registers vm)[unat d - 32768 := v]\<rparr>)"
proof -
  have u: "uint d = int (unat d)" by simp
  show ?thesis
    using assms
    unfolding setRegister_def assign_def toRegisterIndex_def modulo_def well_formed_def
      is_register_reference_def
    by (auto simp: u nat_diff_distrib simp del: of_nat_unat)
qed


lemma well_formed_New: "well_formed (NewVirtualMachine p)"
  by (simp add: well_formed_def New_fields)

lemma unat_eq_numeral: "unat (w :: Number) = n \<Longrightarrow> n < 65536 \<Longrightarrow> w = word_of_nat n"
  by auto

lemma operand_Inr_range:
  "operand vm k = Inr x \<Longrightarrow> 0 \<le> memoryIndex vm + k \<and> memoryIndex vm + k < int (length (memory vm))"
  by (simp add: operand_def index_def split: if_splits)

lemma resolved_Inr_range:
  "resolved vm k = Inr x \<Longrightarrow> 0 \<le> memoryIndex vm + k \<and> memoryIndex vm + k < int (length (memory vm))"
  by (cases "operand vm k") (simp_all add: resolved_def operand_Inr_range)

lemma uint_less_length: "uint (w :: Number) < int n \<longleftrightarrow> unat w < n"
  by (simp only: uint_nat of_nat_less_iff)

lemma return_address:
  assumes "well_formed vm" and "resolved vm 1 = Inr target"
  shows "int (unat (word_of_int (memoryIndex vm + 2) :: Number)) = memoryIndex vm + 2"
proof -
  from assms(2) have "0 \<le> memoryIndex vm + 1 \<and> memoryIndex vm + 1 < int (length (memory vm))"
    by (rule resolved_Inr_range)
  with assms(1) have "0 \<le> memoryIndex vm + 2" and "memoryIndex vm + 2 < 2 ^ 16"
    by (simp_all add: well_formed_def memory_size_def)
  then have "uint (word_of_int (memoryIndex vm + 2) :: Number) = memoryIndex vm + 2"
    by (simp only: uint_word_of_int) (simp add: take_bit_int_eq_self)
  then show ?thesis
    by (simp only: uint_nat [symmetric])
qed

lemma step_call:
  assumes "resolved vm 0 = Inr 17" and "resolved vm 1 = Inr target"
    and "unat target < length (memory vm)"
  shows "step vm =
     Inr (vm\<lparr>stack := stack vm @ [word_of_int (memoryIndex vm + 2)],
             memoryIndex := int (unat target)\<rparr>)"
  using assms
  by (simp add: step_normal dispatch_simps call_normal operand_def index_def uint_less_length)

lemma step_ret:
  assumes "resolved vm 0 = Inr 18" and "stack vm = st @ [ra]"
  shows "step vm =
     (if unat ra < length (memory vm)
      then Inr (vm\<lparr>stack := st, memoryIndex := int (unat ra)\<rparr>)
      else Inl (PanicIndexOutOfRange (int (unat ra)) (length (memory vm))))"
  using assms
  by (simp add: step_normal dispatch_simps ret_normal operand_def index_def uint_less_length)

lemma toRegisterIndex_range:
  "0 \<le> toRegisterIndex d \<and> toRegisterIndex d < 8 \<longleftrightarrow> is_register_reference d"
proof -
  have u: "uint d = int (unat d)" by simp
  show ?thesis
    unfolding toRegisterIndex_def modulo_def is_register_reference_def
    by (auto simp: u simp del: of_nat_unat)
qed

lemma nat_toRegisterIndex: "nat (toRegisterIndex d) = unat d - 32768"
proof -
  have u: "uint d = int (unat d)" by simp
  show ?thesis
    unfolding toRegisterIndex_def modulo_def
    by (simp add: u nat_diff_distrib del: of_nat_unat)
qed

lemma dispatch_memory:
  "dispatch opcode vm = Inr vm1 \<Longrightarrow> opcode \<noteq> 16 \<Longrightarrow> memory vm1 = memory vm"
  unfolding dispatch_def
  by (auto split: if_splits dest!: refill_Inr
      simp: normal_forms inversions halt_def noop_def)

lemma dispatch_stack:
  "dispatch opcode vm = Inr vm1 \<Longrightarrow> opcode \<noteq> 2 \<Longrightarrow> opcode \<noteq> 3 \<Longrightarrow> opcode \<noteq> 17 \<Longrightarrow>
     opcode \<noteq> 18 \<Longrightarrow> stack vm1 = stack vm"
  unfolding dispatch_def
  by (auto split: if_splits dest!: refill_Inr
      simp: normal_forms inversions halt_def noop_def)

lemma dispatch_destination:
  assumes "dispatch opcode vm = Inr vm1"
    and "opcode \<in> {1, 3, 4, 5, 9, 10, 11, 12, 13, 14, 15, 20}"
  shows "\<exists>d v. operand vm 1 = Inr d \<and> 0 \<le> toRegisterIndex d \<and>
           toRegisterIndex d < int (length (registers vm)) \<and>
           registers vm1 = (registers vm)[nat (toRegisterIndex d) := v]"
  using assms unfolding dispatch_def
  by (auto split: if_splits dest!: refill_Inr simp: normal_forms inversions operand_def)

lemma dispatch_input:
  assumes "dispatch opcode vm = Inr vm1" and "opcode \<noteq> 20"
  shows "input vm1 = input vm \<and> stdin vm1 = stdin vm"
  using assms unfolding dispatch_def
  by (auto split: if_splits simp: normal_forms inversions halt_def noop_def)




lemma step_Inr_dispatch:
  assumes "resolved vm 0 = Inr opcode" and "step vm = Inr vm'"
  shows "\<exists>vm1. dispatch opcode vm = Inr vm1 \<and> vm' = vm1\<lparr>memoryIndex := memoryIndex vm1 + 1\<rparr>"
  using assms by (auto simp: step_normal andThen_Inr_iff)

lemma step_vm_add:
  "step vm_add = Inr (vm_add\<lparr>memoryIndex := 4, registers := (registers vm_add)[0 := 4]\<rparr>)"
  by (simp add: step_normal dispatch_simps add_normal vm_add_def eval_New setRegister_def
      assign_def toRegisterIndex_def modulo_def)

lemma step_vm_set_literal:
  "step vm_set_literal = Inl (PanicIndexOutOfRange (- 32763) 8)"
  by (simp add: step_normal dispatch_simps set_vm_normal vm_set_literal_def eval_New
      setRegister_def assign_def toRegisterIndex_def modulo_def)

lemma unat_ucast_byte: "unat (ucast (b :: byte) :: Number) = unat b"
proof -
  have "unat b < 2 ^ 8"
    using unsigned_less [of b, where ?'a = nat] by simp
  then have "unat b < 2 ^ 16"
    by simp
  then have "take_bit 16 (unat b) = unat b"
    by (rule take_bit_nat_eq_self)
  then show ?thesis
    by (simp add: unsigned_ucast_eq)
qed

lemma unat_Uint16: "unat (Uint16 b0 b1) = unat b0 + 256 * unat b1"
proof -
  have d: "(ucast b0 :: Number) + push_bit 8 (ucast b1) = ucast b0 OR push_bit 8 (ucast b1)"
    by (rule disjunctive_add) (auto simp: bit_simps dest: bit_imp_le_length)
  have "unat b0 < 256" "unat b1 < 256"
    using unsigned_less [of b0, where ?'a = nat] unsigned_less [of b1, where ?'a = nat] by simp_all
  then have l: "unat b0 + 256 * unat b1 < 65536" by arith
  have "unat (Uint16 b0 b1) = unat ((ucast b0 :: Number) + push_bit 8 (ucast b1))"
    by (simp only: Uint16_def d)
  also have "\<dots> = (unat (ucast b0 :: Number) + unat (ucast b1 * 256 :: Number)) mod 65536"
    by (simp add: unat_word_ariths push_bit_eq_mult)
  also have "unat (ucast b1 * 256 :: Number) = (unat (ucast b1 :: Number) * 256) mod 65536"
    by (simp add: unat_word_ariths)
  finally have "unat (Uint16 b0 b1) = (unat b0 + (unat b1 * 256) mod 65536) mod 65536"
    by (simp only: unat_ucast_byte)
  also have "\<dots> = (unat b0 + 256 * unat b1) mod 65536"
    by (simp add: mod_simps mult.commute)
  also have "\<dots> = unat b0 + 256 * unat b1"
    using l by simp
  finally show ?thesis .
qed

lemma readProgram_even:
  "even (length b) \<Longrightarrow>
     \<exists>program. readProgram b spare = Inr program \<and> map unat program = spec_words b \<and>
       2 * length program = length b"
proof (induction b spare rule: readProgram.induct)
  case (4 b0 b1 bs spare)
  then obtain program where "readProgram bs spare = Inr program"
    "map unat program = spec_words bs" "2 * length program = length bs"
    by auto
  then show ?case
    by (simp add: unat_Uint16)
qed simp_all

lemma readProgram_odd:
  "odd (length b) \<Longrightarrow>
     readProgram b [] = Inl PanicSliceBounds \<and>
     readProgram b (s0 # rest) = readProgram (b @ [s0]) []"
proof (induction b "[] :: byte list" rule: readProgram.induct)
  case (4 b0 b1 bs)
  then show ?case by simp
qed simp_all

lemma readProgram_zeros: "readProgram (replicate (2 * n) 0) spare = Inr (replicate n 0)"
  by (induction n) (simp_all add: Uint16_def)

lemma memory_New_nth:
  "a < memory_size \<Longrightarrow>
     memory (NewVirtualMachine program) ! a = (if a < length program then program ! a else 0)"
  by (simp add: NewVirtualMachine_def nth_append)

lemma index_memory_New_out:
  "int memory_size \<le> i \<Longrightarrow>
     index (memory (NewVirtualMachine p)) i = Inl (PanicIndexOutOfRange i memory_size)"
  by (simp add: index_def New_fields)

lemma step_rmem_last:
  "step (NewVirtualMachine [15, 32768, 32767]) = Inl (PanicIndexOutOfRange 32767 32767)"
  by (simp add: step_normal dispatch_simps read_normal eval_New index_memory_New_out)

lemma step_wmem_last:
  "step (NewVirtualMachine [16, 32767, 0]) = Inl (PanicIndexOutOfRange 32767 32767)"
  by (simp add: step_normal dispatch_simps write_vm_normal eval_New assign_def)

lemma step_jmp_last:
  "step (NewVirtualMachine [6, 32767]) = Inl (PanicIndexOutOfRange 32767 32767)"
  by (simp add: step_normal dispatch_simps jump_normal eval_New index_memory_New_out)

lemma dispatch_lengths:
  "dispatch opcode vm = Inr vm1 \<Longrightarrow>
     length (memory vm1) = length (memory vm) \<and> length (registers vm1) = length (registers vm)"
  unfolding dispatch_def
  by (auto split: if_splits dest!: refill_Inr
      simp: normal_forms inversions halt_def noop_def)

lemma step_well_formed:
  assumes "well_formed vm" and "step vm = Inr vm'"
  shows "well_formed vm'"
proof -
  from assms(2) obtain opcode where "resolved vm 0 = Inr opcode"
    by (auto simp: step_normal andThen_Inr_iff)
  with assms(2) obtain vm1 where "dispatch opcode vm = Inr vm1"
    and "vm' = vm1\<lparr>memoryIndex := memoryIndex vm1 + 1\<rparr>"
    by (blast dest: step_Inr_dispatch)
  with assms(1) show ?thesis
    by (auto simp: well_formed_def dest: dispatch_lengths)
qed

lemma memory_cell_below_last:
  assumes "well_formed vm" and "unat (a :: Number) < 32767"
  shows "index (memory vm) (int (unat a)) = Inr (memory vm ! unat a) \<and>
         assign (memory vm) (int (unat a)) v = Inr ((memory vm)[unat a := v])"
proof -
  have "uint a < int 32767 \<longleftrightarrow> unat a < 32767"
    by (rule uint_less_length)
  with assms show ?thesis
    by (simp add: well_formed_def memory_size_def index_def assign_def)
qed







section \<open>Size of the memory (C1)\<close>

text \<open>
  Claim C1 says that the memory has 32768 cells, so that an instruction fetch, an
  \<open>rmem\<close> read and a \<open>wmem\<close> write succeed at every address from 0 to 32767. The
  array of the struct is \<^verbatim>\<open>[32767]Number\<close>: its last cell is 32766, while
  \<^verbatim>\<open>toValue\<close> accepts 32767 as a literal. The three programs \<^verbatim>\<open>rmem r0 32767\<close>,
  \<^verbatim>\<open>wmem 32767 0\<close> and \<^verbatim>\<open>jmp 32767\<close>, loaded from their bytes and run, each end
  in Go's panic "index out of range [32767] with length 32767".
\<close>

theorem C1_last_address_panics:
  "load [15, 0, 0, 128, 255, 127] [] = Inr (NewVirtualMachine [15, 32768, 32767]) \<and>
   Run (NewVirtualMachine [15, 32768, 32767]) = Some (PanicIndexOutOfRange 32767 32767) \<and>
   load [16, 0, 255, 127, 0, 0] [] = Inr (NewVirtualMachine [16, 32767, 0]) \<and>
   Run (NewVirtualMachine [16, 32767, 0]) = Some (PanicIndexOutOfRange 32767 32767) \<and>
   load [6, 0, 255, 127] [] = Inr (NewVirtualMachine [6, 32767]) \<and>
   Run (NewVirtualMachine [6, 32767]) = Some (PanicIndexOutOfRange 32767 32767)"
proof -
  have "load [15, 0, 0, 128, 255, 127] [] = Inr (NewVirtualMachine [15, 32768, 32767])"
    "load [16, 0, 255, 127, 0, 0] [] = Inr (NewVirtualMachine [16, 32767, 0])"
    "load [6, 0, 255, 127] [] = Inr (NewVirtualMachine [6, 32767])"
    by (simp_all add: load_def Uint16_def)
  moreover have "Run (NewVirtualMachine [15, 32768, 32767]) = Some (PanicIndexOutOfRange 32767 32767)"
    by (subst Run.simps) (simp add: step_rmem_last)
  moreover have "Run (NewVirtualMachine [16, 32767, 0]) = Some (PanicIndexOutOfRange 32767 32767)"
    by (subst Run.simps) (simp add: step_wmem_last)
  moreover have "Run (NewVirtualMachine [6, 32767]) = Some (PanicIndexOutOfRange 32767 32767)"
    by (subst Run.simps) (simp add: step_jmp_last)
  ultimately show ?thesis by simp
qed

section \<open>Loading a program (C2)\<close>

text \<open>
  Claim C2, as the code has it. Loading never rejects a program as malformed. A byte
  sequence of even length, whatever its size, loads: \<^verbatim>\<open>readProgram\<close> yields the
  words that the specification describes, and the memory holds, from address 0, as
  many of them as it has cells, and zero in the cells after the program; a program
  with more words than cells is cut short, not refused. A byte slice of odd length is
  not refused either. When it has no spare capacity the slice expression
  \<^verbatim>\<open>b[i:i+2]\<close> panics; when it has, the last byte is paired with the next byte of
  the backing array, as if that byte had been part of the input.
\<close>

theorem C2_loading_never_rejects:
  "(even (length b) \<longrightarrow>
      (\<exists>program. readProgram b spare = Inr program \<and> map unat program = spec_words b \<and>
         load b spare = Inr (NewVirtualMachine program) \<and>
         length (memory (NewVirtualMachine program)) = memory_size \<and>
         (\<forall>a < memory_size. memory (NewVirtualMachine program) ! a =
            (if a < length program then program ! a else 0)))) \<and>
   (odd (length b) \<longrightarrow>
      load b [] = Inl PanicSliceBounds \<and>
      (\<forall>s0 rest. load b (s0 # rest) = load (b @ [s0]) []))"
proof (intro conjI impI)
  assume "even (length b)"
  then obtain program where p: "readProgram b spare = Inr program"
    "map unat program = spec_words b"
    by (blast dest: readProgram_even)
  then have "load b spare = Inr (NewVirtualMachine program)"
    by (simp add: load_def)
  with p show "\<exists>program. readProgram b spare = Inr program \<and> map unat program = spec_words b \<and>
      load b spare = Inr (NewVirtualMachine program) \<and>
      length (memory (NewVirtualMachine program)) = memory_size \<and>
      (\<forall>a < memory_size. memory (NewVirtualMachine program) ! a =
         (if a < length program then program ! a else 0))"
    by (auto simp: memory_New_nth New_fields)
next
  assume o: "odd (length b)"
  then show "load b [] = Inl PanicSliceBounds"
    by (simp add: load_def readProgram_odd)
  from o show "\<forall>s0 rest. load b (s0 # rest) = load (b @ [s0]) []"
    by (simp add: load_def readProgram_odd)
qed

theorem C2_loading_never_rejects_witness:
  "even (length [9, 0, 0, 128 :: byte]) \<and>
   load [9, 0, 0, 128] [] = Inr (NewVirtualMachine [9, 32768]) \<and>
   odd (length [1 :: byte]) \<and>
   load [1] [] = Inl PanicSliceBounds \<and>
   load [1] [0] = load [1, 0] []"
proof -
  have e: "even (length [9, 0, 0, 128 :: byte])" by simp
  have o: "odd (length [1 :: byte])" by simp
  have r: "readProgram [9, 0, 0, 128] [] = Inr [9, 32768]"
    by (simp add: Uint16_def)
  from C2_loading_never_rejects [of "[9, 0, 0, 128]" "[]"] e r
  have "load [9, 0, 0, 128] [] = Inr (NewVirtualMachine [9, 32768])"
    by auto
  moreover from C2_loading_never_rejects [of "[1]"] o
  have "load [1] [] = Inl PanicSliceBounds \<and> load [1] [0] = load ([1] @ [0]) []"
    by blast
  ultimately show ?thesis
    using e o by simp
qed

text \<open>
  Claim C2 as stated fails: 65538 zero bytes are 32769 words, more than 32768, and a
  single byte in a slice of capacity two is an input of odd length, and both load.
\<close>

theorem C2_counterexample:
  "load (replicate 65538 0) [] = Inr (NewVirtualMachine (replicate 32769 0)) \<and>
   load [1] [0] = Inr (NewVirtualMachine [1])"
proof -
  have "replicate 65538 (0 :: byte) = replicate (2 * 32769) 0"
    by simp
  then have "readProgram (replicate 65538 0) [] = Inr (replicate 32769 0)"
    by (simp only: readProgram_zeros)
  moreover have "readProgram [1] [0] = Inr [1]"
    by (simp add: Uint16_def)
  ultimately show ?thesis
    by (simp add: load_def)
qed

section \<open>Operand resolution (C3)\<close>

text \<open>
  Claim C3. A raw word \<open>w\<close> resolved in a value position: from 0 to 32767 it resolves
  to itself; from 32768 to 32775 it resolves to the content of register \<open>w - 32768\<close>;
  from 32776 on, the machine stops with the fatal error "Invalid value" and no value
  is produced.
\<close>

theorem C3_toValue_resolution:
  assumes "well_formed vm"
  shows "(unat w \<le> 32767 \<longrightarrow> toValue vm w = Inr w) \<and>
         (32768 \<le> unat w \<and> unat w \<le> 32775 \<longrightarrow>
            toValue vm w = Inr (registers vm ! (unat w - 32768))) \<and>
         (32776 \<le> unat w \<longrightarrow> toValue vm w = Inl (FatalInvalidValue w))"
proof -
  have u: "uint w = int (unat w)" by simp
  show ?thesis
    using assms
    unfolding well_formed_def toValue_def modulo_def toRegisterIndex_def index_def
      word_le_nat_alt
    by (auto simp: u nat_diff_distrib simp del: of_nat_unat)
qed

theorem C3_toValue_resolution_witness:
  "well_formed vm_registers \<and>
   toValue vm_registers 5 = Inr 5 \<and>
   toValue vm_registers 32769 = Inr 11 \<and>
   toValue vm_registers 40000 = Inl (FatalInvalidValue 40000)"
proof -
  have h: "well_formed vm_registers"
    by (simp add: well_formed_def vm_registers_def New_fields)
  have r: "registers vm_registers ! Suc 0 = 11"
    by (simp add: vm_registers_def)
  show ?thesis
    using h r C3_toValue_resolution [OF h, of 5] C3_toValue_resolution [OF h, of 32769]
      C3_toValue_resolution [OF h, of 40000]
    by simp
qed

section \<open>Destination operands (C4)\<close>




section \<open>Advance of the program counter (C5)\<close>

text \<open>
  Claim C5. After an executed instruction that does not set the program counter itself
  (any opcode but \<open>jmp\<close>, \<open>call\<close>, \<open>ret\<close>, a \<open>jt\<close> whose condition is not zero and
  a \<open>jf\<close> whose condition is zero), the program counter is the address of the
  instruction plus one plus its operand count. A \<open>jt\<close> on zero and a \<open>jf\<close> on a
  non-zero value consume their address operand too.
\<close>

theorem C5_program_counter_advance:
  assumes "resolved vm 0 = Inr opcode" and "step vm = Inr vm'"
    and "opcode \<notin> {6, 17, 18}"
    and "opcode = 7 \<longrightarrow> resolved vm 1 = Inr 0"
    and "opcode = 8 \<longrightarrow> (\<exists>c. resolved vm 1 = Inr c \<and> c \<noteq> 0)"
  shows "memoryIndex vm' = memoryIndex vm + 1 + int (spec_operand_count opcode)"
proof -
  from assms(1,2) obtain vm1 where d: "dispatch opcode vm = Inr vm1"
    and v: "vm' = vm1\<lparr>memoryIndex := memoryIndex vm1 + 1\<rparr>"
    by (auto simp: step_normal andThen_Inr_iff)
  from d assms(3-5) have "memoryIndex vm1 = memoryIndex vm + int (spec_operand_count opcode)"
    by (intro dispatch_fallthrough) auto
  with v show ?thesis by simp
qed

lemma step_jt_zero: "step vm_jt_zero = Inr (vm_jt_zero\<lparr>memoryIndex := 3\<rparr>)"
  by (simp add: step_normal dispatch_simps jt_normal vm_jt_zero_def eval_New)

lemma step_jf_nonzero: "step vm_jf_nonzero = Inr (vm_jf_nonzero\<lparr>memoryIndex := 3\<rparr>)"
  by (simp add: step_normal dispatch_simps jf_normal vm_jf_nonzero_def eval_New)

theorem C5_program_counter_advance_witness:
  "resolved vm_jt_zero 0 = Inr 7 \<and> resolved vm_jt_zero 1 = Inr 0 \<and>
   step vm_jt_zero = Inr (vm_jt_zero\<lparr>memoryIndex := 3\<rparr>) \<and>
   memoryIndex (vm_jt_zero\<lparr>memoryIndex := 3\<rparr>) = memoryIndex vm_jt_zero + 1 + int (spec_operand_count 7) \<and>
   resolved vm_jf_nonzero 0 = Inr 8 \<and> resolved vm_jf_nonzero 1 = Inr 1 \<and>
   step vm_jf_nonzero = Inr (vm_jf_nonzero\<lparr>memoryIndex := 3\<rparr>) \<and>
   memoryIndex (vm_jf_nonzero\<lparr>memoryIndex := 3\<rparr>) = memoryIndex vm_jf_nonzero + 1 + int (spec_operand_count 8)"
proof -
  have t0: "resolved vm_jt_zero 0 = Inr 7" and t1: "resolved vm_jt_zero 1 = Inr 0"
    by (simp_all add: vm_jt_zero_def eval_New)
  have f0: "resolved vm_jf_nonzero 0 = Inr 8" and f1: "resolved vm_jf_nonzero 1 = Inr 1"
    by (simp_all add: vm_jf_nonzero_def eval_New)
  note t = C5_program_counter_advance [OF t0 step_jt_zero]
  note f = C5_program_counter_advance [OF f0 step_jf_nonzero]
  have "memoryIndex (vm_jt_zero\<lparr>memoryIndex := 3\<rparr>) = memoryIndex vm_jt_zero + 1 + int (spec_operand_count 7)"
    using t1 by (intro t) simp_all
  moreover have "memoryIndex (vm_jf_nonzero\<lparr>memoryIndex := 3\<rparr>) = memoryIndex vm_jf_nonzero + 1 + int (spec_operand_count 8)"
    using f1 by (intro f) simp_all
  ultimately show ?thesis
    using t0 t1 f0 f1 step_jt_zero step_jf_nonzero by simp
qed

section \<open>Arithmetic modulo 32768 (C6, C7)\<close>

text \<open>
  Claim C6. Executing \<open>add\<close> (opcode 9) stores \<open>(a + b) mod 32768\<close> in the destination
  register and executing \<open>mult\<close> (opcode 10) stores \<open>(a * b) mod 32768\<close>, where \<open>a\<close>
  and \<open>b\<close> are the resolved operands and the sum and the product are those of the
  natural numbers, which may not fit 16 bits. It holds of all 16-bit values \<open>a\<close> and
  \<open>b\<close>, so also of those up to 32767.
\<close>

theorem C6_add_mult_modulo:
  assumes "well_formed vm"
    and "operand vm 1 = Inr d" and "is_register_reference d"
    and "resolved vm 2 = Inr a" and "resolved vm 3 = Inr b"
  shows "\<exists>s p. unat s = (unat a + unat b) mod 32768 \<and>
           unat p = (unat a * unat b) mod 32768 \<and>
           dispatch 9 vm =
             Inr (vm\<lparr>memoryIndex := memoryIndex vm + 3,
                     registers := (registers vm)[unat d - 32768 := s]\<rparr>) \<and>
           dispatch 10 vm =
             Inr (vm\<lparr>memoryIndex := memoryIndex vm + 3,
                     registers := (registers vm)[unat d - 32768 := p]\<rparr>)"
proof (intro exI conjI)
  show "unat ((a + b) mod word_of_nat modulo) = (unat a + unat b) mod 32768"
    by (rule unat_add_modulo)
  show "unat ((a * b) mod word_of_nat modulo) = (unat a * unat b) mod 32768"
    by (rule unat_mult_modulo)
  show "dispatch 9 vm =
      Inr (vm\<lparr>memoryIndex := memoryIndex vm + 3,
              registers := (registers vm)[unat d - 32768 := (a + b) mod word_of_nat modulo]\<rparr>)"
    using assms by (simp add: dispatch_simps add_normal setRegister_reference)
  show "dispatch 10 vm =
      Inr (vm\<lparr>memoryIndex := memoryIndex vm + 3,
              registers := (registers vm)[unat d - 32768 := (a * b) mod word_of_nat modulo]\<rparr>)"
    using assms by (simp add: dispatch_simps mul_normal setRegister_reference)
qed

theorem C6_add_mult_modulo_witness:
  "well_formed vm_add \<and> operand vm_add 1 = Inr 32768 \<and> is_register_reference 32768 \<and>
   resolved vm_add 2 = Inr 32767 \<and> resolved vm_add 3 = Inr 5 \<and>
   dispatch 9 vm_add =
     Inr (vm_add\<lparr>memoryIndex := memoryIndex vm_add + 3, registers := (registers vm_add)[0 := 4]\<rparr>) \<and>
   dispatch 10 vm_add =
     Inr (vm_add\<lparr>memoryIndex := memoryIndex vm_add + 3, registers := (registers vm_add)[0 := 32763]\<rparr>)"
proof -
  have w: "well_formed vm_add"
    by (simp add: vm_add_def well_formed_New)
  have d: "operand vm_add 1 = Inr 32768"
    and a: "resolved vm_add 2 = Inr 32767" and b: "resolved vm_add 3 = Inr 5"
    by (simp_all add: vm_add_def eval_New)
  have r: "is_register_reference 32768"
    by (simp add: is_register_reference_def)
  from C6_add_mult_modulo [OF w d r a b] obtain s p :: Number
    where s: "unat s = (unat (32767 :: Number) + unat (5 :: Number)) mod 32768"
      and p: "unat p = (unat (32767 :: Number) * unat (5 :: Number)) mod 32768"
      and e: "dispatch 9 vm_add =
          Inr (vm_add\<lparr>memoryIndex := memoryIndex vm_add + 3,
                  registers := (registers vm_add)[unat (32768 :: Number) - 32768 := s]\<rparr>)"
        "dispatch 10 vm_add =
          Inr (vm_add\<lparr>memoryIndex := memoryIndex vm_add + 3,
                  registers := (registers vm_add)[unat (32768 :: Number) - 32768 := p]\<rparr>)"
    by blast
  from s have "unat s = 4" by simp
  then have s4: "s = 4" by (auto dest: unat_eq_numeral)
  from p have "unat p = 32763" by simp
  then have p4: "p = 32763" by (auto dest: unat_eq_numeral)
  from e show ?thesis
    unfolding s4 p4 using w d r a b by simp
qed

text \<open>
  Claim C7. Executing \<open>not\<close> (opcode 14) on a resolved operand \<open>a\<close> of at most 32767
  stores \<open>32767 - a\<close>, its complement on 15 bits, in the destination register, and
  that value is at most 32767: the complement is taken on 16 bits and reduced modulo
  32768.
\<close>

theorem C7_not_complement:
  assumes "well_formed vm"
    and "operand vm 1 = Inr d" and "is_register_reference d"
    and "resolved vm 2 = Inr a" and "unat a \<le> 32767"
  shows "\<exists>v. unat v = 32767 - unat a \<and> unat v \<le> 32767 \<and>
           dispatch 14 vm =
             Inr (vm\<lparr>memoryIndex := memoryIndex vm + 2,
                     registers := (registers vm)[unat d - 32768 := v]\<rparr>)"
proof (intro exI conjI)
  show "unat ((NOT a) mod word_of_nat modulo) = 32767 - unat a"
    using assms(5) by (rule unat_not_modulo)
  then show "unat ((NOT a) mod word_of_nat modulo) \<le> 32767" by simp
  show "dispatch 14 vm =
      Inr (vm\<lparr>memoryIndex := memoryIndex vm + 2,
              registers := (registers vm)[unat d - 32768 := (NOT a) mod word_of_nat modulo]\<rparr>)"
    using assms by (simp add: dispatch_simps not_vm_normal setRegister_reference)
qed

theorem C7_not_complement_witness:
  "well_formed vm_not \<and> operand vm_not 1 = Inr 32769 \<and> is_register_reference 32769 \<and>
   resolved vm_not 2 = Inr 5 \<and> unat (5 :: Number) \<le> 32767 \<and>
   dispatch 14 vm_not =
     Inr (vm_not\<lparr>memoryIndex := memoryIndex vm_not + 2,
             registers := (registers vm_not)[1 := 32762]\<rparr>)"
proof -
  have w: "well_formed vm_not"
    by (simp add: vm_not_def well_formed_New)
  have d: "operand vm_not 1 = Inr 32769" and a: "resolved vm_not 2 = Inr 5"
    by (simp_all add: vm_not_def eval_New)
  have r: "is_register_reference 32769"
    by (simp add: is_register_reference_def)
  have b: "unat (5 :: Number) \<le> 32767" by simp
  from C7_not_complement [OF w d r a b] obtain v :: Number
    where v: "unat v = 32767 - unat (5 :: Number)"
      and e: "dispatch 14 vm_not =
          Inr (vm_not\<lparr>memoryIndex := memoryIndex vm_not + 2,
                  registers := (registers vm_not)[unat (32769 :: Number) - 32768 := v]\<rparr>)"
    by blast
  from v have "unat v = 32762" by simp
  then have v4: "v = 32762" by (auto dest: unat_eq_numeral)
  from e show ?thesis
    unfolding v4 using w d r a b by simp
qed

section \<open>Call and return (C8, C9)\<close>

text \<open>
  Claim C8. Executing \<open>call\<close> (opcode 17) at address \<open>p\<close> pushes \<open>p + 2\<close>, the address
  after the operand of the call, and sets the program counter to the resolved operand.
  A later \<open>ret\<close> (opcode 18) that finds that word on top of the stack pops it and
  resumes at \<open>p + 2\<close>. The target and the return address are cells of the memory.
\<close>

theorem C8_call_then_ret:
  assumes "well_formed vm"
    and "resolved vm 0 = Inr 17" and "resolved vm 1 = Inr target"
    and "unat target < length (memory vm)"
  shows "\<exists>r. int (unat r) = memoryIndex vm + 2 \<and>
           step vm = Inr (vm\<lparr>stack := stack vm @ [r], memoryIndex := int (unat target)\<rparr>) \<and>
           (\<forall>vm2 st. resolved vm2 0 = Inr 18 \<and> stack vm2 = st @ [r] \<and>
                unat r < length (memory vm2) \<longrightarrow>
              step vm2 = Inr (vm2\<lparr>stack := st, memoryIndex := memoryIndex vm + 2\<rparr>))"
proof (intro exI conjI allI impI)
  show r: "int (unat (word_of_int (memoryIndex vm + 2) :: Number)) = memoryIndex vm + 2"
    using assms(1,3) by (rule return_address)
  show "step vm =
      Inr (vm\<lparr>stack := stack vm @ [word_of_int (memoryIndex vm + 2)],
              memoryIndex := int (unat target)\<rparr>)"
    using assms(2-4) by (rule step_call)
  fix vm2 st
  assume "resolved vm2 0 = Inr 18 \<and> stack vm2 = st @ [word_of_int (memoryIndex vm + 2)] \<and>
    unat (word_of_int (memoryIndex vm + 2) :: Number) < length (memory vm2)"
  then show "step vm2 = Inr (vm2\<lparr>stack := st, memoryIndex := memoryIndex vm + 2\<rparr>)"
    using r by (simp add: step_ret uint_less_length [symmetric] del: of_nat_unat)
qed

theorem C8_call_then_ret_witness:
  "well_formed vm_call \<and> resolved vm_call 0 = Inr 17 \<and> resolved vm_call 1 = Inr 4 \<and>
   unat (4 :: Number) < length (memory vm_call) \<and>
   step vm_call = Inr (vm_call\<lparr>stack := [2], memoryIndex := 4\<rparr>) \<and>
   resolved (vm_call\<lparr>stack := [2], memoryIndex := 4\<rparr>) 0 = Inr 18 \<and>
   step (vm_call\<lparr>stack := [2], memoryIndex := 4\<rparr>) =
     Inr (vm_call\<lparr>stack := [], memoryIndex := 2\<rparr>)"
proof -
  have w: "well_formed vm_call"
    by (simp add: vm_call_def well_formed_New)
  have o: "resolved vm_call 0 = Inr 17" and t: "resolved vm_call 1 = Inr 4"
    by (simp_all add: vm_call_def eval_New)
  have l: "unat (4 :: Number) < length (memory vm_call)"
    by (simp add: vm_call_def New_fields memory_size_def)
  have o2: "resolved (vm_call\<lparr>stack := [2], memoryIndex := 4\<rparr>) 0 = Inr 18"
    by (simp add: vm_call_def eval_New)
  have m: "memoryIndex vm_call = 0" and s0: "stack vm_call = []"
    by (simp_all add: vm_call_def New_fields)
  from C8_call_then_ret [OF w o t l] obtain r :: Number
    where r: "int (unat r) = memoryIndex vm_call + 2"
      and c: "step vm_call =
          Inr (vm_call\<lparr>stack := stack vm_call @ [r], memoryIndex := int (unat (4 :: Number))\<rparr>)"
      and b: "\<And>vm2 st. resolved vm2 0 = Inr 18 \<and> stack vm2 = st @ [r] \<and>
          unat r < length (memory vm2) \<Longrightarrow>
          step vm2 = Inr (vm2\<lparr>stack := st, memoryIndex := memoryIndex vm_call + 2\<rparr>)"
    by blast
  from r m have "unat r = 2" by (simp del: of_nat_unat)
  then have r2: "r = 2" by (auto dest: unat_eq_numeral)
  have "step (vm_call\<lparr>stack := [2], memoryIndex := 4\<rparr>) =
      Inr (vm_call\<lparr>stack := [2], memoryIndex := 4\<rparr>
             \<lparr>stack := [], memoryIndex := memoryIndex vm_call + 2\<rparr>)"
    using o2 by (intro b) (simp add: r2 vm_call_def New_fields memory_size_def)
  with c show ?thesis
    using w o t l o2 by (simp add: r2 m s0)
qed

text \<open>
  Claim C9. Executing \<open>ret\<close> on an empty stack ends the run with exit status 0, as
  \<open>halt\<close> does, and not with an error. On a non-empty stack it pops the top word and
  sets the program counter to it, the rest of the stack unchanged: the handler leaves
  the index one below the popped word and the loop's increment then fetches the cell
  at that word.
\<close>

theorem C9_ret:
  assumes "resolved vm 0 = Inr 18"
  shows "(stack vm = [] \<longrightarrow> step vm = Inl Exit0 \<and> dispatch 18 vm = dispatch 0 vm) \<and>
         (\<forall>st ra. stack vm = st @ [ra] \<longrightarrow>
            dispatch 18 vm = Inr (vm\<lparr>stack := st, memoryIndex := int (unat ra) - 1\<rparr>) \<and>
            (unat ra < length (memory vm) \<longrightarrow>
               step vm = Inr (vm\<lparr>stack := st, memoryIndex := int (unat ra)\<rparr>)))"
proof (intro conjI allI impI)
  assume "stack vm = []"
  with assms show "step vm = Inl Exit0"
    by (simp add: step_normal dispatch_simps ret_normal)
  from \<open>stack vm = []\<close> show "dispatch 18 vm = dispatch 0 vm"
    by (simp add: dispatch_simps ret_normal halt_def)
next
  fix st ra
  assume s: "stack vm = st @ [ra]"
  then show "dispatch 18 vm = Inr (vm\<lparr>stack := st, memoryIndex := int (unat ra) - 1\<rparr>)"
    by (simp add: dispatch_simps ret_normal)
  assume "unat ra < length (memory vm)"
  with assms s show "step vm = Inr (vm\<lparr>stack := st, memoryIndex := int (unat ra)\<rparr>)"
    by (simp add: step_ret)
qed

theorem C9_ret_witness:
  "resolved vm_ret_empty 0 = Inr 18 \<and> stack vm_ret_empty = [] \<and>
   step vm_ret_empty = Inl Exit0 \<and> dispatch 18 vm_ret_empty = dispatch 0 vm_ret_empty \<and>
   resolved vm_ret 0 = Inr 18 \<and> stack vm_ret = [7] @ [3] \<and>
   unat (3 :: Number) < length (memory vm_ret) \<and>
   dispatch 18 vm_ret = Inr (vm_ret\<lparr>stack := [7], memoryIndex := 2\<rparr>) \<and>
   step vm_ret = Inr (vm_ret\<lparr>stack := [7], memoryIndex := 3\<rparr>)"
proof -
  have e0: "resolved vm_ret_empty 0 = Inr 18" and e1: "stack vm_ret_empty = []"
    by (simp_all add: vm_ret_empty_def eval_New)
  have n0: "resolved vm_ret 0 = Inr 18" and n1: "stack vm_ret = [7] @ [3]"
    and n2: "unat (3 :: Number) < length (memory vm_ret)"
    by (simp_all add: vm_ret_def eval_New)
  from C9_ret [OF e0] e1
  have "step vm_ret_empty = Inl Exit0 \<and> dispatch 18 vm_ret_empty = dispatch 0 vm_ret_empty"
    by blast
  moreover from C9_ret [OF n0] n1 n2
  have "dispatch 18 vm_ret = Inr (vm_ret\<lparr>stack := [7], memoryIndex := int (unat (3 :: Number)) - 1\<rparr>) \<and>
    step vm_ret = Inr (vm_ret\<lparr>stack := [7], memoryIndex := int (unat (3 :: Number))\<rparr>)"
    by blast
  ultimately show ?thesis
    using e0 e1 n0 n1 n2 by simp
qed

section \<open>What an instruction leaves unchanged (C10)\<close>

text \<open>
  Claim C10. An executed \<open>set\<close>, \<open>eq\<close>, \<open>gt\<close>, \<open>add\<close>, \<open>mult\<close>, \<open>mod\<close>, \<open>and\<close>, \<open>or\<close>,
  \<open>not\<close> or \<open>rmem\<close> writes one register, its destination, and leaves the memory, the
  stack, the input buffer and the other seven registers as they were. No instruction
  but \<open>wmem\<close> changes the memory, and none but \<open>push\<close>, \<open>pop\<close>, \<open>call\<close> and \<open>ret\<close>
  changes the stack.
\<close>

theorem C10_frame:
  assumes "well_formed vm" and "resolved vm 0 = Inr opcode" and "step vm = Inr vm'"
  shows "(opcode \<in> {1, 4, 5, 9, 10, 11, 12, 13, 14, 15} \<longrightarrow>
            (\<exists>d v. operand vm 1 = Inr d \<and> is_register_reference d \<and>
               registers vm' = (registers vm)[unat d - 32768 := v] \<and>
               (\<forall>i. i \<noteq> unat d - 32768 \<longrightarrow> registers vm' ! i = registers vm ! i)) \<and>
            memory vm' = memory vm \<and> stack vm' = stack vm \<and> input vm' = input vm) \<and>
         (opcode \<noteq> 16 \<longrightarrow> memory vm' = memory vm) \<and>
         (opcode \<notin> {2, 3, 17, 18} \<longrightarrow> stack vm' = stack vm)"
proof -
  from assms(2,3) obtain vm1 where d: "dispatch opcode vm = Inr vm1"
    and v: "vm' = vm1\<lparr>memoryIndex := memoryIndex vm1 + 1\<rparr>"
    by (blast dest: step_Inr_dispatch)
  have l: "length (registers vm) = 8"
    using assms(1) by (simp add: well_formed_def)
  have m: "opcode \<noteq> 16 \<longrightarrow> memory vm' = memory vm"
    using d v by (auto dest: dispatch_memory)
  have s: "opcode \<notin> {2, 3, 17, 18} \<longrightarrow> stack vm' = stack vm"
    using d v by (auto dest: dispatch_stack)
  have r: "opcode \<in> {1, 4, 5, 9, 10, 11, 12, 13, 14, 15} \<longrightarrow>
      (\<exists>d v. operand vm 1 = Inr d \<and> is_register_reference d \<and>
         registers vm' = (registers vm)[unat d - 32768 := v] \<and>
         (\<forall>i. i \<noteq> unat d - 32768 \<longrightarrow> registers vm' ! i = registers vm ! i)) \<and>
      memory vm' = memory vm \<and> stack vm' = stack vm \<and> input vm' = input vm"
  proof
    assume o: "opcode \<in> {1, 4, 5, 9, 10, 11, 12, 13, 14, 15}"
    then have "opcode \<in> {1, 3, 4, 5, 9, 10, 11, 12, 13, 14, 15, 20}" by auto
    with d obtain w x where w: "operand vm 1 = Inr w" "0 \<le> toRegisterIndex w"
      "toRegisterIndex w < int (length (registers vm))"
      "registers vm1 = (registers vm)[nat (toRegisterIndex w) := x]"
      by (blast dest: dispatch_destination)
    from w(2,3) l have "is_register_reference w"
      by (simp add: toRegisterIndex_range [symmetric])
    moreover from w(4) v have "registers vm' = (registers vm)[unat w - 32768 := x]"
      by (simp add: nat_toRegisterIndex)
    moreover from o d v have "input vm' = input vm"
      by (auto dest: dispatch_input)
    moreover from o m have "memory vm' = memory vm" by auto
    moreover from o s have "stack vm' = stack vm" by auto
    ultimately show "(\<exists>d v. operand vm 1 = Inr d \<and> is_register_reference d \<and>
         registers vm' = (registers vm)[unat d - 32768 := v] \<and>
         (\<forall>i. i \<noteq> unat d - 32768 \<longrightarrow> registers vm' ! i = registers vm ! i)) \<and>
      memory vm' = memory vm \<and> stack vm' = stack vm \<and> input vm' = input vm"
      using w(1) by auto
  qed
  from r m s show ?thesis by blast
qed

theorem C10_frame_witness:
  "well_formed vm_add \<and> resolved vm_add 0 = Inr 9 \<and>
   step vm_add = Inr (vm_add\<lparr>memoryIndex := 4, registers := (registers vm_add)[0 := 4]\<rparr>) \<and>
   operand vm_add 1 = Inr 32768 \<and> is_register_reference 32768 \<and>
   memory (vm_add\<lparr>memoryIndex := 4, registers := (registers vm_add)[0 := 4]\<rparr>) = memory vm_add \<and>
   stack (vm_add\<lparr>memoryIndex := 4, registers := (registers vm_add)[0 := 4]\<rparr>) = stack vm_add \<and>
   input (vm_add\<lparr>memoryIndex := 4, registers := (registers vm_add)[0 := 4]\<rparr>) = input vm_add"
proof -
  have w: "well_formed vm_add"
    by (simp add: vm_add_def well_formed_New)
  have o: "resolved vm_add 0 = Inr 9" and d: "operand vm_add 1 = Inr 32768"
    by (simp_all add: vm_add_def eval_New)
  have r: "is_register_reference 32768"
    by (simp add: is_register_reference_def)
  from C10_frame [OF w o step_vm_add] show ?thesis
    using w o d r step_vm_add by simp
qed

end
